theory Spec2Isabelle
  imports Main
begin

section \<open>Strings and numbers of the JavaScript runtime\<close>

text \<open>
  The two components under study are TypeScript: \<^verbatim>\<open>components/PipelineList.tsx\<close> and
  \<^verbatim>\<open>edit-job-view/LoadParametersDialog.tsx\<close>. A JavaScript string is modelled as a
  \<^typ>\<open>string\<close> whose characters are the code units \<open>0\<close> to \<open>255\<close> (Latin-1); names and
  paths with characters beyond that range are outside the model.
\<close>

definition isDigit :: "char \<Rightarrow> bool" where
  \<comment> \<open>the class \<^verbatim>\<open>[0-9]\<close>\<close>
  "isDigit c \<longleftrightarrow> 48 \<le> (of_char c :: nat) \<and> (of_char c :: nat) \<le> 57"

definition isWordChar :: "char \<Rightarrow> bool" where
  \<comment> \<open>the class \<^verbatim>\<open>\w\<close>, that is \<^verbatim>\<open>[A-Za-z0-9_]\<close>\<close>
  "isWordChar c \<longleftrightarrow>
     (let n = (of_char c :: nat)
      in (65 \<le> n \<and> n \<le> 90) \<or> (97 \<le> n \<and> n \<le> 122) \<or> (48 \<le> n \<and> n \<le> 57) \<or> n = 95)"

definition isWhiteSpace :: "char \<Rightarrow> bool" where
  \<comment> \<open>what \<^verbatim>\<open>String.prototype.trim\<close> strips: TAB, LF, VT, FF, CR, SP and NBSP\<close>
  "isWhiteSpace c \<longleftrightarrow> (of_char c :: nat) \<in> {9, 10, 11, 12, 13, 32, 160}"

definition isLineTerminator :: "char \<Rightarrow> bool" where
  \<comment> \<open>the characters that \<^verbatim>\<open>.\<close> of a regular expression does not match: LF and CR\<close>
  "isLineTerminator c \<longleftrightarrow> (of_char c :: nat) \<in> {10, 13}"

definition toLowerCaseChar :: "char \<Rightarrow> char" where
  \<comment> \<open>\<^verbatim>\<open>A-Z\<close> and the Latin-1 capitals \<open>0xC0\<close> to \<open>0xDE\<close> (the sign \<open>0xD7\<close> apart) have a
      lower-case letter \<open>32\<close> places further\<close>
  "toLowerCaseChar c =
     (let n = (of_char c :: nat)
      in if (65 \<le> n \<and> n \<le> 90) \<or> (192 \<le> n \<and> n \<le> 222 \<and> n \<noteq> 215) then char_of (n + 32) else c)"

definition toLowerCase :: "string \<Rightarrow> string" where
  "toLowerCase s = map toLowerCaseChar s"

definition canonicalize :: "char \<Rightarrow> char" where
  \<comment> \<open>how a regular expression with the flag \<^verbatim>\<open>i\<close> compares characters: by their upper-case
      form. A character outside \<^verbatim>\<open>a-z\<close> never takes the form of an ASCII letter (the
      standard keeps a non-ASCII character whose capital would be ASCII), so it is left
      as it is.\<close>
  "canonicalize c =
     (let n = (of_char c :: nat) in if 97 \<le> n \<and> n \<le> 122 then char_of (n - 32) else c)"

definition trim :: "string \<Rightarrow> string" where
  "trim s = rev (dropWhile isWhiteSpace (rev (dropWhile isWhiteSpace s)))"

definition endsWith :: "string \<Rightarrow> string \<Rightarrow> bool" where
  "endsWith s suffix \<longleftrightarrow>
     length suffix \<le> length s \<and> drop (length s - length suffix) s = suffix"

subsection \<open>Decimal digits\<close>

definition digitChar :: "nat \<Rightarrow> char" where
  "digitChar d = char_of (48 + d)"

definition digitValue :: "char \<Rightarrow> nat" where
  "digitValue c = (of_char c :: nat) - 48"

fun decimal :: "nat \<Rightarrow> string" where
  "decimal n = (if n < 10 then [digitChar n] else decimal (n div 10) @ [digitChar (n mod 10)])"

declare decimal.simps [simp del]

definition decimalValue :: "string \<Rightarrow> nat" where
  \<comment> \<open>the integer that a string of decimal digits denotes\<close>
  "decimalValue ds = foldl (\<lambda>acc c. 10 * acc + digitValue c) 0 ds"

subsection \<open>Numbers\<close>

text \<open>
  A JavaScript number is an IEEE 754 double. The numbers that occur here are integers
  (or \<open>+Infinity\<close>): \<open>-1\<close>, the results of \<^verbatim>\<open>parseInt\<close> on decimal digits, their maximum
  and the maximum plus one. \<open>Finite i\<close> stands for the double whose value is the integer
  \<open>i\<close>. Every integer up to \<open>2 ^ 53\<close> is a double; above, a double has 53 significant
  bits and an integer is rounded to the nearest one, to the even significand on a tie.
\<close>

datatype number = Finite int | Infinity

fun bitLength :: "nat \<Rightarrow> nat" where
  "bitLength n = (if n = 0 then 0 else Suc (bitLength (n div 2)))"

declare bitLength.simps [simp del]

definition doubleOfNat :: "nat \<Rightarrow> number" where
  \<comment> \<open>the double nearest to a natural number\<close>
  "doubleOfNat n =
     (if n \<le> 2 ^ 53 then Finite (int n)
      else let e = bitLength n - 53;
               q = n div 2 ^ e;
               r = n mod 2 ^ e;
               h = 2 ^ (e - 1);
               q' = (if r < h \<or> (r = h \<and> even q) then q else q + 1)
           in if 2 ^ 1024 \<le> q' * 2 ^ e then Infinity else Finite (int (q' * 2 ^ e)))"

definition parseInt :: "string \<Rightarrow> number" where
  \<comment> \<open>\<^verbatim>\<open>parseInt\<close> as it is applied here, to a non-empty string of decimal digits (no sign,
      no \<^verbatim>\<open>0x\<close>, see \<open>regExp_match_group\<close> below): the value of the digits as a double,
      rounded correctly as V8 does\<close>
  "parseInt s = doubleOfNat (decimalValue s)"

fun Math_max :: "number \<Rightarrow> number \<Rightarrow> number" where
  "Math_max Infinity _ = Infinity"
| "Math_max _ Infinity = Infinity"
| "Math_max (Finite a) (Finite b) = Finite (max a b)"

fun number_add_one :: "number \<Rightarrow> number" where
  \<comment> \<open>\<^verbatim>\<open>x + 1\<close> in double arithmetic, for \<open>x \<ge> -1\<close>\<close>
  "number_add_one Infinity = Infinity"
| "number_add_one (Finite i) = (if i < 0 then Finite (i + 1) else doubleOfNat (nat i + 1))"

fun number_positive :: "number \<Rightarrow> bool" where
  \<comment> \<open>\<^verbatim>\<open>x > 0\<close>\<close>
  "number_positive Infinity = True"
| "number_positive (Finite i) = (0 < i)"

text \<open>
  \<^verbatim>\<open>Number::toString\<close> prints the shortest string of digits that reads back to the same
  double (the nearest to it when several are as short), with an exponent from \<open>10 ^ 21\<close>
  on. Up to \<open>2 ^ 53\<close> that is the decimal expansion of the integer.
\<close>

function shortestFrom :: "nat \<Rightarrow> nat \<Rightarrow> nat \<Rightarrow> nat" where
  "shortestFrom k d v =
     (if d \<le> k then v
      else let p = 10 ^ (d - k);
               lo = (v div p) * p;
               hi = lo + p;
               okLo = (doubleOfNat lo = Finite (int v));
               okHi = (doubleOfNat hi = Finite (int v))
           in if okLo \<and> okHi then
                (if v - lo < hi - v \<or> (v - lo = hi - v \<and> even (v div p)) then lo else hi)
              else if okLo then lo
              else if okHi then hi
              else shortestFrom (Suc k) d v)"
  by pat_completeness auto
termination
  by (relation "measure (\<lambda>(k, d, v). d - k)") auto

declare shortestFrom.simps [simp del]

definition stripZeros :: "string \<Rightarrow> string" where
  "stripZeros ds = rev (dropWhile (\<lambda>c. c = CHR ''0'') (rev ds))"

definition printDouble :: "nat \<Rightarrow> string" where
  \<comment> \<open>a positive integer double \<open>v\<close> above \<open>2 ^ 53\<close>\<close>
  "printDouble v =
     (let ds = decimal (shortestFrom 1 (length (decimal v)) v);
          n = length ds;
          s = stripZeros ds
      in if n \<le> 21 then ds
         else (if length s \<le> 1 then s else hd s # CHR ''.'' # tl s) @ ''e+'' @ decimal (n - 1))"

definition number_toString_nat :: "nat \<Rightarrow> string" where
  "number_toString_nat n = (if n \<le> 2 ^ 53 then decimal n else printDouble n)"

fun number_toString :: "number \<Rightarrow> string" where
  "number_toString Infinity = ''Infinity''"
| "number_toString (Finite i) =
     (if i < 0 then CHR ''-'' # number_toString_nat (nat (- i)) else number_toString_nat (nat i))"

section \<open>The pipeline list: \<^verbatim>\<open>components/PipelineList.tsx\<close>\<close>

record PipelineMetaData =
  name :: string
  path :: string
  uuid :: string

definition INITIAL_PIPELINE_NAME :: string where
  "INITIAL_PIPELINE_NAME = ''Main''"


subsection \<open>The default name and path of a new pipeline\<close>

text \<open>
  \<^verbatim>\<open>name.match(regExp)\<close> with \<^verbatim>\<open>regExp = /^Main( [0-9]+)?/i\<close>. The expression is anchored at
  the start only. The result is \<open>None\<close> for \<^verbatim>\<open>null\<close>; otherwise \<open>Some g\<close>, where \<open>g\<close> is
  \<^verbatim>\<open>matches[1]\<close>: \<open>None\<close> when the group took no part (\<^verbatim>\<open>undefined\<close>), and the space with
  the longest run of digits behind it otherwise (the group is greedy).
\<close>

definition regExp_match :: "string \<Rightarrow> string option option" where
  "regExp_match s =
     (if map canonicalize (take 4 s) = map canonicalize INITIAL_PIPELINE_NAME then
        (case drop 4 s of
           [] \<Rightarrow> Some None
         | c # rest \<Rightarrow>
             if c = CHR '' '' \<and> takeWhile isDigit rest \<noteq> []
             then Some (Some (c # takeWhile isDigit rest))
             else Some None)
      else None)"

definition currentNumber :: "string option \<Rightarrow> number" where
  \<comment> \<open>\<^verbatim>\<open>!matches[1] ? 0 : parseInt(matches[1].trim())\<close>\<close>
  "currentNumber g =
     (case g of
        None \<Rightarrow> Finite 0
      | Some m \<Rightarrow> if m = [] then Finite 0 else parseInt (trim m))"

definition reducer :: "number \<Rightarrow> PipelineMetaData \<Rightarrow> number" where
  \<comment> \<open>the callback of the \<^verbatim>\<open>reduce\<close> in \<^verbatim>\<open>getValidNewPipelineName\<close>\<close>
  "reducer existingNumber pipeline =
     (case regExp_match (name pipeline) of
        None \<Rightarrow> existingNumber
      | Some g \<Rightarrow> Math_max existingNumber (currentNumber g))"

definition largestExistingNumber :: "PipelineMetaData list \<Rightarrow> number" where
  \<comment> \<open>the \<^verbatim>\<open>reduce\<close> itself, started at \<open>-1\<close>\<close>
  "largestExistingNumber pipelines = foldl reducer (Finite (- 1)) pipelines"

definition getValidNewPipelineName :: "PipelineMetaData list \<Rightarrow> string" where
  "getValidNewPipelineName pipelines =
     (let newNumber = number_add_one (largestExistingNumber pipelines)
      in if number_positive newNumber
         then INITIAL_PIPELINE_NAME @ '' '' @ number_toString newNumber
         else INITIAL_PIPELINE_NAME)"

definition getPathFromName :: "string \<Rightarrow> string" where
  \<comment> \<open>\<^verbatim>\<open>name.toLowerCase().replace(/[\W]/g, "_")\<close> with \<^verbatim>\<open>.orchest\<close> behind it\<close>
  "getPathFromName nm =
     map (\<lambda>c. if isWordChar c then c else CHR ''_'') (toLowerCase nm) @ ''.orchest''"


text \<open>
  The words of the specification. A name has a numeric suffix when it begins with
  \<^verbatim>\<open>Main\<close> (in any case of the letters): the integer written by the digits that follow
  \<^verbatim>\<open>Main\<close> and a space, and \<open>0\<close> when no space and digit come next. \<open>nameIsMainN\<close> says that
  the name as a whole has the form \<^verbatim>\<open>Main\<close> or \<^verbatim>\<open>Main N\<close>. Both are stated on the name
  itself; that the expression, \<^verbatim>\<open>trim\<close> and \<^verbatim>\<open>parseInt\<close> of the code compute them is proved
  below (\<open>numericSuffix_regExp\<close>, \<open>nameIsMainN_regExp\<close>).
\<close>

definition numericSuffix :: "string \<Rightarrow> nat option" where
  "numericSuffix s =
     (if map canonicalize (take 4 s) = ''MAIN'' then
        Some (case drop 4 s of
                [] \<Rightarrow> 0
              | c # rest \<Rightarrow> if c = CHR '' '' then decimalValue (takeWhile isDigit rest) else 0)
      else None)"

definition nameIsMainN :: "string \<Rightarrow> bool" where
  "nameIsMainN s \<longleftrightarrow>
     map canonicalize (take 4 s) = ''MAIN'' \<and>
     (case drop 4 s of
        [] \<Rightarrow> True
      | c # ds \<Rightarrow> c = CHR '' '' \<and> ds \<noteq> [] \<and> list_all isDigit ds)"

definition suffixes :: "PipelineMetaData list \<Rightarrow> nat list" where
  \<comment> \<open>the numeric suffixes of the names in which the code finds a match\<close>
  "suffixes pipelines = List.map_filter (\<lambda>p. numericSuffix (name p)) pipelines"

definition spec_newPipelineName :: "PipelineMetaData list \<Rightarrow> string" where
  \<comment> \<open>the default name as the specification words it: over the names of the form
      \<^verbatim>\<open>Main\<close> or \<^verbatim>\<open>Main N\<close>, with integers of any size\<close>
  "spec_newPipelineName pipelines =
     (let ns = List.map_filter (\<lambda>p. numericSuffix (name p))
                 (filter (\<lambda>p. nameIsMainN (name p)) pipelines)
      in if ns = [] then ''Main'' else ''Main '' @ decimal (Max (set ns) + 1))"

definition safeSuffixes :: "PipelineMetaData list \<Rightarrow> bool" where
  \<comment> \<open>every numeric suffix is below \<open>2 ^ 53\<close>, so that it and its successor are doubles\<close>
  "safeSuffixes pipelines \<longleftrightarrow> (\<forall>k\<in>set (suffixes pipelines). k < 2 ^ 53)"

subsection \<open>JSON values of a response\<close>

text \<open>
  What \<^verbatim>\<open>JSON.parse\<close> returns. A number is an integer-valued double; numbers with a
  fraction are outside the model.
\<close>

datatype json =
    JNull
  | JBool bool
  | JNumber int
  | JString string
  | JArray "json list"
  | JObject "(string \<times> json) list"

fun json_toString :: "json \<Rightarrow> string"
  and json_join :: "json list \<Rightarrow> string" where
  "json_toString JNull = ''null''"
| "json_toString (JBool b) = (if b then ''true'' else ''false'')"
| "json_toString (JNumber i) = number_toString (Finite i)"
| "json_toString (JString s) = s"
| "json_toString (JArray xs) = json_join xs"
| "json_toString (JObject fs) = ''[object Object]''"
| "json_join [] = []"
| "json_join (x # xs) =
     (if x = JNull then [] else json_toString x) @ (if xs = [] then [] else '','' @ json_join xs)"

fun json_get :: "json \<Rightarrow> string \<Rightarrow> json option option" where
  \<comment> \<open>\<^verbatim>\<open>value.key\<close> for the keys \<^verbatim>\<open>code\<close> and \<^verbatim>\<open>message\<close>, which no prototype defines:
      \<open>None\<close> is the TypeError on \<^verbatim>\<open>null\<close>, \<open>Some None\<close> is \<^verbatim>\<open>undefined\<close>; of a key written
      twice in an object the last one counts\<close>
  "json_get JNull k = None"
| "json_get (JObject fs) k = Some (map_of (rev fs) k)"
| "json_get _ k = Some None"

definition toDisplayString :: "json option \<Rightarrow> string" where
  \<comment> \<open>the string of a value or of \<^verbatim>\<open>undefined\<close>, in a template literal and as a property key\<close>
  "toDisplayString x = (case x of None \<Rightarrow> ''undefined'' | Some j \<Rightarrow> json_toString j)"

subsection \<open>Effects, responses and the state of the view\<close>

datatype http_method = GET | POST | PUT | DELETE

record request =
  requestMethod :: http_method  \<comment> \<open>the \<^verbatim>\<open>method\<close> of the options\<close>
  url :: string
  body :: "json option"  \<comment> \<open>the value given to \<^verbatim>\<open>JSON.stringify\<close>, when there is a body\<close>

datatype effect =
    SetAlert string "string option"  \<comment> \<open>\<^verbatim>\<open>setAlert(title, content)\<close>; \<open>None\<close> is \<^verbatim>\<open>undefined\<close>\<close>
  | SetAlertInherited string string  \<comment> \<open>\<^verbatim>\<open>setAlert(title, content)\<close> with what
                                         \<^verbatim>\<open>Object.prototype\<close> has under the given key
                                         (\<^verbatim>\<open>undefined\<close> when it has nothing)\<close>
  | SetConfirm string string         \<comment> \<open>\<^verbatim>\<open>setConfirm(title, content, callback)\<close>\<close>
  | Fetch request                    \<comment> \<open>\<^verbatim>\<open>fetcher(url, options)\<close>: a network request\<close>
  | RequestFetchPipelines            \<comment> \<open>the revalidation of the list of pipelines\<close>
  | Resolve bool                     \<comment> \<open>the \<^verbatim>\<open>resolve\<close> of the confirmation dialog\<close>
  | ConsoleError

record rejection =
  isCanceled :: bool           \<comment> \<open>whether \<^verbatim>\<open>response.isCanceled\<close> is truthy\<close>
  parsedBody :: "json option"  \<comment> \<open>\<^verbatim>\<open>JSON.parse(response.body)\<close>; \<open>None\<close> when it throws\<close>
  reasonText :: string         \<comment> \<open>the reason as a string, as in a template literal\<close>

datatype outcome = Fulfilled | Rejected rejection

datatype status = IDLE | PENDING | RESOLVED | REJECTED

record pipelineInEdit =
  edit_uuid :: string
  edit_path :: string

record view =
  projectUuid :: string
  pipelines :: "PipelineMetaData list option"  \<comment> \<open>\<open>None\<close> until the list is fetched\<close>
  pipelineInEdit :: "pipelineInEdit option"
  isCreateDialogOpen :: bool
  isEditingPipelinePath :: bool
  createPipelineName :: string
  createPipelinePath :: string
  asyncStatus :: status

definition run :: "view \<Rightarrow> view" where
  \<comment> \<open>Modelled from the spec: the hook \<^verbatim>\<open>useAsync\<close> (\<^verbatim>\<open>hooks/useAsync\<close> is not among the
      sources), "a minimal async-status value object (idle/pending/success/error)";
      \<^verbatim>\<open>run(promise)\<close> makes the status pending until the promise settles.\<close>
  "run v = v\<lparr>asyncStatus := PENDING\<rparr>"

definition settle :: "view \<Rightarrow> view" where
  \<comment> \<open>Modelled from the spec: the same hook, when the promise given to \<^verbatim>\<open>run\<close> is
      fulfilled; here it always is, since each chain ends with its own \<^verbatim>\<open>catch\<close>.\<close>
  "settle v = v\<lparr>asyncStatus := RESOLVED\<rparr>"

definition isOperating :: "view \<Rightarrow> bool" where
  "isOperating v \<longleftrightarrow> asyncStatus v = PENDING"

definition pipelineRows :: "view \<Rightarrow> PipelineMetaData list" where
  \<comment> \<open>\<^verbatim>\<open>(pipelines || []).map(...)\<close>; the session status of a row plays no part here\<close>
  "pipelineRows v = (case pipelines v of None \<Rightarrow> [] | Some ps \<Rightarrow> ps)"

definition isPathTaken :: "view \<Rightarrow> bool" where
  "isPathTaken v \<longleftrightarrow> list_ex (\<lambda>row. path row = createPipelinePath v) (pipelineRows v)"

definition createPathHelperText :: "view \<Rightarrow> string" where
  \<comment> \<open>the text under the path field of the create dialog\<close>
  "createPathHelperText v = (if isPathTaken v then ''File already exists'' else [])"

definition createButtonDisabled :: "view \<Rightarrow> bool" where
  \<comment> \<open>\<^verbatim>\<open>disabled={isPathTaken || isOperating}\<close> of the submit button of the create dialog\<close>
  "createButtonDisabled v \<longleftrightarrow> isPathTaken v \<or> isOperating v"




definition isRequest :: "effect \<Rightarrow> bool" where
  \<comment> \<open>the effects that go to the network\<close>
  "isRequest e \<longleftrightarrow> (case e of Fetch r \<Rightarrow> True | RequestFetchPipelines \<Rightarrow> True | _ \<Rightarrow> False)"

subsection \<open>Creating a pipeline\<close>

definition onSubmitCreatePipeline :: "view \<Rightarrow> view \<times> effect list" where
  "onSubmitCreatePipeline v =
     (let pipelineName = createPipelineName v;
          pipelinePath = createPipelinePath v
      in if pipelineName = [] then
           (v, [SetAlert ''Error'' (Some ''Please enter a name.'')])
         else if pipelinePath = [] \<or> pipelinePath = ''.orchest'' then
           (v, [SetAlert ''Error'' (Some ''Please enter the path for the pipeline.'')])
         else if \<not> endsWith pipelinePath ''.orchest'' then
           (v, [SetAlert ''Error'' (Some ''The path should end in the .orchest extension.'')])
         else
           ((run v)\<lparr>isCreateDialogOpen := False\<rparr>,
            [Fetch \<lparr>requestMethod = POST,
                    url = ''/async/pipelines/create/'' @ projectUuid v,
                    body = Some (JObject [(''name'', JString pipelineName),
                                          (''pipeline_path'', JString pipelinePath)])\<rparr>]))"

definition submitCreateForm :: "view \<Rightarrow> view \<times> effect list" where
  \<comment> \<open>a submission of the form \<^verbatim>\<open>create-pipeline\<close>, whose \<^verbatim>\<open>onSubmit\<close> calls the handler. The
      form has one submit button, with \<^verbatim>\<open>disabled={isPathTaken || isOperating}\<close>; while it is
      disabled neither a click nor the Enter key submits the form, and nothing happens.\<close>
  "submitCreateForm v = (if createButtonDisabled v then (v, []) else onSubmitCreatePipeline v)"


subsection \<open>Changing the path of a pipeline\<close>

definition getErrorMessages :: "string \<Rightarrow> (string \<times> string) list" where
  \<comment> \<open>the object literal that \<^verbatim>\<open>getErrorMessages(path)\<close> returns: its own properties, each
      key with its message\<close>
  "getErrorMessages p =
     [(''0'', []),
      (''1'', ''Cannot change the pipeline path if an interactive session is running. Please stop it first.''),
      (''2'', ''Cannot change the pipeline path, a file path with the name '' @ p
              @ [CHR 0x22] @ '' already exists.''),
      (''3'', ''The pipeline does not exist.''),
      (''4'', ''The pipeline file name should end with '' @ [CHR 0x22] @ ''.orchest''
              @ [CHR 0x22] @ ''.''),
      (''5'', ''The pipeline file does not exist.''),
      (''6'', ''Can'' @ [CHR 0x27] @ ''t move the pipeline outside of the project.'')]"

text \<open>
  Reading \<^verbatim>\<open>object[key]\<close> on such an object gives the message of the key when the key is
  one of its own. For any other key the value comes from \<^verbatim>\<open>Object.prototype\<close>: a member
  of it for a key such as \<^verbatim>\<open>toString\<close> or \<^verbatim>\<open>constructor\<close>, and \<^verbatim>\<open>undefined\<close> for a key that it
  does not define, such as \<^verbatim>\<open>7\<close> or \<^verbatim>\<open>undefined\<close>. The model keeps the key and does not say
  which members \<^verbatim>\<open>Object.prototype\<close> has.
\<close>

datatype property = Own string | Inherited string

definition readProperty :: "(string \<times> string) list \<Rightarrow> string \<Rightarrow> property" where
  "readProperty obj key = (case map_of obj key of Some m \<Rightarrow> Own m | None \<Rightarrow> Inherited key)"

definition alertOf :: "property \<Rightarrow> effect" where
  \<comment> \<open>\<^verbatim>\<open>setAlert("Error", content)\<close> for the content that was read\<close>
  "alertOf content =
     (case content of
        Own m \<Rightarrow> SetAlert ''Error'' (Some m)
      | Inherited key \<Rightarrow> SetAlertInherited ''Error'' key)"

definition onCloseEditPipelineModal :: "view \<Rightarrow> view" where
  "onCloseEditPipelineModal v = v\<lparr>isEditingPipelinePath := False\<rparr>"

definition onSubmitEditPipelinePathModal :: "view \<Rightarrow> view \<times> effect list" where
  "onSubmitEditPipelinePathModal v =
     (case pipelineInEdit v of
        None \<Rightarrow> (v, [])
      | Some e \<Rightarrow>
          if \<not> endsWith (edit_path e) ''.orchest'' then
            (v, [SetAlert ''Error'' (Some ''The path should end in the .orchest extension.'')])
          else
            (run v,
             [Fetch \<lparr>requestMethod = PUT,
                     url = ''/async/pipelines/'' @ projectUuid v @ ''/'' @ edit_uuid e,
                     body = Some (JObject [(''path'', JString (edit_path e))])\<rparr>]))"

definition onEditSettled :: "pipelineInEdit \<Rightarrow> outcome \<Rightarrow> view \<Rightarrow> view \<times> effect list" where
  \<comment> \<open>the \<^verbatim>\<open>then\<close>, the \<^verbatim>\<open>catch\<close> and the \<^verbatim>\<open>finally\<close> behind the request of
      \<^verbatim>\<open>onSubmitEditPipelinePathModal\<close>; \<open>e\<close> is the \<^verbatim>\<open>pipelineInEdit\<close> of the submission,
      which the callbacks have captured\<close>
  "onEditSettled e r v =
     (onCloseEditPipelineModal (settle v),
      case r of
        Fulfilled \<Rightarrow> [RequestFetchPipelines]
      | Rejected response \<Rightarrow>
          (case parsedBody response of
             None \<Rightarrow> [ConsoleError]
           | Some resp \<Rightarrow>
               (case json_get resp ''code'' of
                  None \<Rightarrow> [ConsoleError]
                | Some code \<Rightarrow>
                    [alertOf (readProperty (getErrorMessages (edit_path e))
                                (toDisplayString code))])))"

subsection \<open>Deleting pipelines\<close>

definition requestDeletePipelines :: "string \<Rightarrow> string \<Rightarrow> request" where
  "requestDeletePipelines projUuid pipelineUuid =
     \<lparr>requestMethod = DELETE,
      url = ''/async/pipelines/delete/'' @ projUuid @ ''/'' @ pipelineUuid,
      body = None\<rparr>"

definition deletePipelines :: "view \<Rightarrow> string list \<Rightarrow> effect list" where
  \<comment> \<open>the call itself only opens the confirmation dialog\<close>
  "deletePipelines v pipelineUuids =
     [SetConfirm ''Warning''
        ''Are you certain that you want to delete this pipeline? (This cannot be undone.)'']"

definition onConfirmDelete :: "view \<Rightarrow> string list \<Rightarrow> effect list" where
  \<comment> \<open>the callback given to \<^verbatim>\<open>setConfirm\<close>, run when the user confirms: one request for
      each uuid, in the order of the list\<close>
  "onConfirmDelete v pipelineUuids =
     map (\<lambda>uuid. Fetch (requestDeletePipelines (projectUuid v) uuid)) pipelineUuids"

text \<open>
  \<^verbatim>\<open>Promise.all\<close> is fulfilled when every request is, and rejected with the reason of the
  request that is rejected first. The network gives every request an outcome and the time
  at which it settles.
\<close>

fun firstRejection :: "(nat \<times> outcome) list \<Rightarrow> (nat \<times> rejection) option" where
  "firstRejection [] = None"
| "firstRejection ((t, Fulfilled) # rs) = firstRejection rs"
| "firstRejection ((t, Rejected e) # rs) =
     (case firstRejection rs of
        None \<Rightarrow> Some (t, e)
      | Some (t', e') \<Rightarrow> if t' < t then Some (t', e') else Some (t, e))"

definition onDeleteSettled :: "(string \<Rightarrow> nat \<times> outcome) \<Rightarrow> string list \<Rightarrow> effect list" where
  \<comment> \<open>the \<^verbatim>\<open>then\<close> and the \<^verbatim>\<open>catch\<close> behind \<^verbatim>\<open>Promise.all\<close>\<close>
  "onDeleteSettled network pipelineUuids =
     (case firstRejection (map network pipelineUuids) of
        None \<Rightarrow> [RequestFetchPipelines, Resolve True]
      | Some (t, e) \<Rightarrow>
          [SetAlert ''Error'' (Some (''Failed to delete pipeline: '' @ reasonText e)), Resolve False])"

section \<open>The parameter file dialog: \<^verbatim>\<open>edit-job-view/LoadParametersDialog.tsx\<close>\<close>

subsection \<open>The working directory of the pipeline\<close>

text \<open>
  \<^verbatim>\<open>path.replace(/\/?[^\/]*.orchest$/, "/")\<close>. The dot of the expression is not escaped: it
  stands for any character but a line terminator. Because of the \<^verbatim>\<open>$\<close>, a match reaches
  the end of the path; \<^verbatim>\<open>replace\<close> takes the leftmost one.
\<close>

definition tailMatches :: "string \<Rightarrow> bool" where
  \<comment> \<open>\<^verbatim>\<open>[^\/]*.orchest$\<close> against the whole of \<open>t\<close>: the last seven characters are
      \<^verbatim>\<open>orchest\<close>, the one before is the dot's, and no slash is before that\<close>
  "tailMatches t \<longleftrightarrow>
     (let r = rev t
      in take 7 r = rev ''orchest'' \<and>
         (case drop 7 r of
            [] \<Rightarrow> False
          | c # a \<Rightarrow> \<not> isLineTerminator c \<and> CHR ''/'' \<notin> set a))"

definition matchesAt :: "string \<Rightarrow> bool" where
  \<comment> \<open>the whole expression against \<open>t\<close>: \<^verbatim>\<open>\/?\<close> takes a slash when there is one, and
      takes nothing when the rest fails after that\<close>
  "matchesAt t \<longleftrightarrow>
     (case t of
        [] \<Rightarrow> False
      | c # r \<Rightarrow> (c = CHR ''/'' \<and> tailMatches r) \<or> tailMatches t)"

fun replaceCwd :: "string \<Rightarrow> string" where
  "replaceCwd [] = []"
| "replaceCwd (c # cs) = (if matchesAt (c # cs) then ''/'' else c # replaceCwd cs)"

definition pipelineCwd :: "PipelineMetaData option \<Rightarrow> string option" where
  \<comment> \<open>\<^verbatim>\<open>pipeline?.path.replace(...)\<close>; \<open>None\<close> while the pipeline is not fetched\<close>
  "pipelineCwd p = map_option (\<lambda>q. replaceCwd (path q)) p"

definition stripFileName :: "string \<Rightarrow> string" where
  \<comment> \<open>the words of the specification: the path without its file name, that is what is
      before the last slash, and a slash\<close>
  "stripFileName p = rev (drop 1 (dropWhile (\<lambda>c. c \<noteq> CHR ''/'') (rev p))) @ ''/''"

subsection \<open>The dialog\<close>

text \<open>
  The state of the dialog is the selected path. What the hook \<^verbatim>\<open>useCheckFileValidity\<close>
  (not among the sources) reports for it goes to the file picker only; it is kept beside
  the path, as an input that changes when the hook reports. The calls of
  \<^verbatim>\<open>preventDefault\<close> and \<^verbatim>\<open>stopPropagation\<close> on the event have no part in the model.
\<close>

record dialog =
  selectedPath :: string
  doesFileExist :: bool
  isCheckingFileValidity :: bool

datatype dialog_event =
    ChangeFilePath string      \<comment> \<open>\<^verbatim>\<open>onChangeFilePath\<close>, that is \<^verbatim>\<open>setSelectedPath\<close>\<close>
  | FileValidity bool bool     \<comment> \<open>the hook reports \<^verbatim>\<open>[doesFileExist, isCheckingFileValidity]\<close>\<close>
  | SubmitForm                 \<comment> \<open>the form \<^verbatim>\<open>load-parameters\<close> is submitted\<close>
  | Cancel                     \<comment> \<open>the button \<^verbatim>\<open>Cancel\<close>, or the dialog is closed\<close>

datatype dialog_output = OnSubmit string | OnClose

definition initialDialog :: dialog where
  \<comment> \<open>\<^verbatim>\<open>React.useState("")\<close>\<close>
  "initialDialog = \<lparr>selectedPath = [], doesFileExist = False, isCheckingFileValidity = False\<rparr>"

fun dialogStep :: "dialog \<Rightarrow> dialog_event \<Rightarrow> dialog \<times> dialog_output list" where
  "dialogStep d (ChangeFilePath p) = (d\<lparr>selectedPath := p\<rparr>, [])"
| "dialogStep d (FileValidity e c) = (d\<lparr>doesFileExist := e, isCheckingFileValidity := c\<rparr>, [])"
| "dialogStep d SubmitForm = (d, [OnSubmit (selectedPath d)])"
| "dialogStep d Cancel = (d, [OnClose])"

fun runDialog :: "dialog \<Rightarrow> dialog_event list \<Rightarrow> dialog \<times> dialog_output list" where
  "runDialog d [] = (d, [])"
| "runDialog d (ev # evs) =
     (let (d', out) = dialogStep d ev;
          (d'', outs) = runDialog d' evs
      in (d'', out @ outs))"

section \<open>Example inputs\<close>

definition examplePipelines :: "PipelineMetaData list" where
  "examplePipelines =
     [\<lparr>name = ''Main'', path = ''main.orchest'', uuid = ''u1''\<rparr>,
      \<lparr>name = ''Main 1'', path = ''main_1.orchest'', uuid = ''u2''\<rparr>,
      \<lparr>name = ''Main 3'', path = ''main_3.orchest'', uuid = ''u3''\<rparr>]"

definition exampleView :: view where
  \<comment> \<open>the create dialog holds a path that a pipeline of the project has already\<close>
  "exampleView =
     \<lparr>projectUuid = ''proj'',
      pipelines = Some [\<lparr>name = ''Main'', path = ''main.orchest'', uuid = ''u1''\<rparr>],
      pipelineInEdit = Some \<lparr>edit_uuid = ''u1'', edit_path = ''renamed.orchest''\<rparr>,
      isCreateDialogOpen = True,
      isEditingPipelinePath = True,
      createPipelineName = ''Other'',
      createPipelinePath = ''main.orchest'',
      asyncStatus = IDLE\<rparr>"

definition validView :: view where
  \<comment> \<open>the same view with a path that is free\<close>
  "validView = exampleView\<lparr>createPipelinePath := ''other.orchest''\<rparr>"


definition exampleRejection :: rejection where
  "exampleRejection =
     \<lparr>isCanceled = False,
      parsedBody = Some (JObject [(''code'', JNumber 2)]),
      reasonText = ''[object Object]''\<rparr>"

definition exampleNetwork :: "string \<Rightarrow> nat \<times> outcome" where
  \<comment> \<open>the request for \<^verbatim>\<open>b\<close> is rejected, every other one is fulfilled\<close>
  "exampleNetwork u = (if u = ''b'' then (1, Rejected exampleRejection) else (2, Fulfilled))"

section \<open>Lemmas\<close>

subsection \<open>Digits and numbers\<close>

lemma char_of_nat_iff: "char_of (n::nat) = c \<longleftrightarrow> n mod 256 = of_char c"
  by (simp add: char_of_eq_iff take_bit_eq_mod)

lemma isDigit_digitChar: "d < 10 \<Longrightarrow> isDigit (digitChar d)"
  by (simp add: isDigit_def digitChar_def)

lemma digitValue_digitChar: "d < 10 \<Longrightarrow> digitValue (digitChar d) = d"
  by (simp add: digitValue_def digitChar_def)

lemma decimal_nonempty: "decimal n \<noteq> []"
  by (subst decimal.simps) simp

lemma decimal_digits: "c \<in> set (decimal n) \<Longrightarrow> isDigit c"
proof (induction n arbitrary: c rule: decimal.induct)
  case (1 n)
  show ?case
  proof (cases "n < 10")
    case True
    with "1.prems" show ?thesis
      by (subst (asm) decimal.simps) (simp add: isDigit_digitChar)
  next
    case False
    with "1.prems" have "c \<in> set (decimal (n div 10)) \<or> c = digitChar (n mod 10)"
      by (subst (asm) decimal.simps) auto
    with False "1.IH" show ?thesis
      by (auto simp: isDigit_digitChar)
  qed
qed

lemma decimalValue_snoc: "decimalValue (ds @ [c]) = 10 * decimalValue ds + digitValue c"
  by (simp add: decimalValue_def)

lemma decimalValue_decimal: "decimalValue (decimal n) = n"
proof (induction n rule: decimal.induct)
  case (1 n)
  show ?case
  proof (cases "n < 10")
    case True
    then show ?thesis
      by (subst decimal.simps) (simp add: decimalValue_def digitValue_digitChar)
  next
    case False
    with "1.IH" show ?thesis
      by (subst decimal.simps) (simp add: decimalValue_snoc digitValue_digitChar)
  qed
qed

lemma digit_not_space: "isDigit c \<Longrightarrow> \<not> isWhiteSpace c"
  by (auto simp: isDigit_def isWhiteSpace_def)

lemma trim_group:
  assumes "ds \<noteq> []" and "\<forall>c\<in>set ds. isDigit c"
  shows "trim (CHR '' '' # ds) = ds"
proof -
  from assms obtain c cs where ds: "ds = c # cs" and c: "isDigit c"
    by (cases ds) auto
  have front: "dropWhile isWhiteSpace (CHR '' '' # ds) = ds"
    using ds c by (simp add: digit_not_space) (simp add: isWhiteSpace_def)
  from assms have "isDigit (last ds)"
    by simp
  then have "\<not> isWhiteSpace (hd (rev ds))"
    using assms(1) by (simp add: hd_rev digit_not_space)
  then have "dropWhile isWhiteSpace (rev ds) = rev ds"
    using assms(1) by (cases "rev ds") auto
  with front show ?thesis
    by (simp add: trim_def)
qed

lemma doubleOfNat_exact: "n \<le> 2 ^ 53 \<Longrightarrow> doubleOfNat n = Finite (int n)"
  by (simp add: doubleOfNat_def)

subsection \<open>The default name\<close>

lemma regExp_match_group:
  assumes "regExp_match s = Some (Some m)"
  obtains ds rest where "drop 4 s = CHR '' '' # ds @ rest" and "m = CHR '' '' # ds"
    and "ds \<noteq> []" and "\<forall>c\<in>set ds. isDigit c" and "trim m = ds"
proof -
  from assms obtain r where r: "drop 4 s = CHR '' '' # r"
    and m: "m = CHR '' '' # takeWhile isDigit r"
    and ne: "takeWhile isDigit r \<noteq> []"
    by (auto simp: regExp_match_def split: if_splits list.splits)
  have digits: "\<forall>c\<in>set (takeWhile isDigit r). isDigit c"
    by (auto dest: set_takeWhileD)
  have "drop 4 s = CHR '' '' # takeWhile isDigit r @ dropWhile isDigit r"
    using r by simp
  moreover have "trim m = takeWhile isDigit r"
    using m ne digits by (simp add: trim_group)
  ultimately show thesis
    using that m ne digits by blast
qed

lemma canonicalize_Main: "map canonicalize INITIAL_PIPELINE_NAME = ''MAIN''"
  by (simp add: INITIAL_PIPELINE_NAME_def canonicalize_def char_of_nat_iff)

lemma decimalValue_Nil: "decimalValue [] = 0"
  by (simp add: decimalValue_def)

lemma numericSuffix_regExp:
  "numericSuffix s =
     (case regExp_match s of
        None \<Rightarrow> None
      | Some None \<Rightarrow> Some 0
      | Some (Some m) \<Rightarrow> Some (decimalValue (trim m)))"
proof (cases "regExp_match s")
  case None
  then show ?thesis
    by (auto simp: regExp_match_def numericSuffix_def canonicalize_Main
        split: if_splits list.splits)
next
  case (Some g)
  show ?thesis
  proof (cases g)
    case None
    with Some show ?thesis
      by (auto simp: regExp_match_def numericSuffix_def canonicalize_Main decimalValue_Nil
          split: if_splits list.splits)
  next
    case inner: (Some m)
    with Some have rm: "regExp_match s = Some (Some m)"
      by simp
    then obtain ds rest where "drop 4 s = CHR '' '' # ds @ rest" and "m = CHR '' '' # ds"
      and "trim m = ds"
      by (rule regExp_match_group)
    moreover from rm have "m = CHR '' '' # takeWhile isDigit (tl (drop 4 s))"
      and "map canonicalize (take 4 s) = ''MAIN''"
      by (auto simp: regExp_match_def canonicalize_Main split: if_splits list.splits)
    ultimately show ?thesis
      using rm by (simp add: numericSuffix_def)
  qed
qed


lemma reducer_exact:
  assumes "\<And>k. numericSuffix (name p) = Some k \<Longrightarrow> k < 2 ^ 53"
  shows "reducer (Finite a) p =
     Finite (case numericSuffix (name p) of None \<Rightarrow> a | Some k \<Rightarrow> max a (int k))"
proof (cases "regExp_match (name p)")
  case None
  then show ?thesis by (simp add: reducer_def numericSuffix_regExp)
next
  case (Some g)
  show ?thesis
  proof (cases g)
    case None
    with Some show ?thesis by (simp add: reducer_def currentNumber_def numericSuffix_regExp)
  next
    case (Some m)
    with \<open>regExp_match (name p) = Some g\<close> have rm: "regExp_match (name p) = Some (Some m)"
      by simp
    then have ne: "m \<noteq> []"
      by (auto elim: regExp_match_group)
    from rm have ns: "numericSuffix (name p) = Some (decimalValue (trim m))"
      by (simp add: numericSuffix_regExp)
    with assms have "decimalValue (trim m) < 2 ^ 53"
      by simp
    then have "parseInt (trim m) = Finite (int (decimalValue (trim m)))"
      by (simp add: parseInt_def doubleOfNat_exact)
    with rm ne ns show ?thesis
      by (simp add: reducer_def currentNumber_def)
  qed
qed

lemma suffixes_Nil: "suffixes [] = []"
  by (simp add: suffixes_def List.map_filter_simps)

lemma suffixes_Cons:
  "suffixes (p # ps) =
     (case numericSuffix (name p) of None \<Rightarrow> suffixes ps | Some k \<Rightarrow> k # suffixes ps)"
  by (simp add: suffixes_def List.map_filter_simps split: option.splits)

lemma set_suffixes: "set (suffixes ps) = {k. \<exists>p\<in>set ps. numericSuffix (name p) = Some k}"
  by (induction ps) (auto simp: suffixes_Nil suffixes_Cons split: option.splits)

lemma foldl_reducer_exact:
  assumes "safeSuffixes ps"
  shows "foldl reducer (Finite a) ps = Finite (Max (insert a (int ` set (suffixes ps))))"
  using assms
proof (induction ps arbitrary: a)
  case Nil
  then show ?case by (simp add: suffixes_Nil)
next
  case (Cons p ps)
  from Cons.prems have here: "\<And>k. numericSuffix (name p) = Some k \<Longrightarrow> k < 2 ^ 53"
    and rest: "safeSuffixes ps"
    by (auto simp: safeSuffixes_def suffixes_Cons split: option.splits)
  have st: "reducer (Finite a) p =
     Finite (case numericSuffix (name p) of None \<Rightarrow> a | Some k \<Rightarrow> max a (int k))"
    using here by (rule reducer_exact)
  show ?case
  proof (cases "numericSuffix (name p)")
    case None
    with st rest Cons.IH show ?thesis
      by (simp add: suffixes_Cons)
  next
    case (Some k)
    have fin: "finite (int ` set (suffixes ps))" by simp
    have "Max (insert (max a (int k)) (int ` set (suffixes ps)))
            = Max (insert a (insert (int k) (int ` set (suffixes ps))))"
      using fin by (cases "set (suffixes ps) = {}") (auto simp: max.assoc max.commute max.left_commute)
    with Some st rest Cons.IH show ?thesis
      by (simp add: suffixes_Cons)
  qed
qed

lemma largest_exact:
  assumes "safeSuffixes ps"
  shows "largestExistingNumber ps =
     (if suffixes ps = [] then Finite (- 1) else Finite (int (Max (set (suffixes ps)))))"
proof (cases "suffixes ps = []")
  case True
  with assms show ?thesis
    by (simp add: largestExistingNumber_def foldl_reducer_exact)
next
  case False
  then have ne: "set (suffixes ps) \<noteq> {}" by simp
  have "Max (int ` set (suffixes ps)) = int (Max (set (suffixes ps)))"
    using ne by (intro mono_Max_commute [symmetric]) (auto simp: mono_def)
  moreover have "Max (insert (- 1) (int ` set (suffixes ps))) = max (- 1) (Max (int ` set (suffixes ps)))"
    using ne by simp
  ultimately have "Max (insert (- 1) (int ` set (suffixes ps))) = int (Max (set (suffixes ps)))"
    by simp
  with assms False show ?thesis
    by (simp add: largestExistingNumber_def foldl_reducer_exact)
qed

lemma newName_exact:
  assumes "safeSuffixes ps"
  shows "getValidNewPipelineName ps =
     (if suffixes ps = [] then ''Main'' else ''Main '' @ decimal (Max (set (suffixes ps)) + 1))"
proof (cases "suffixes ps = []")
  case True
  with assms show ?thesis
    by (simp add: getValidNewPipelineName_def largest_exact INITIAL_PIPELINE_NAME_def)
next
  case False
  let ?m = "Max (set (suffixes ps))"
  from False have "?m \<in> set (suffixes ps)"
    by (intro Max_in) auto
  with assms have "?m < 2 ^ 53"
    by (simp add: safeSuffixes_def)
  then have le: "?m + 1 \<le> 2 ^ 53" by simp
  have "number_add_one (Finite (int ?m)) = Finite (int (?m + 1))"
    using le by (simp add: doubleOfNat_exact del: of_nat_Suc of_nat_add)
  moreover have "number_toString (Finite (int (?m + 1))) = decimal (?m + 1)"
    using le by (simp add: number_toString_nat_def del: of_nat_Suc of_nat_add)
  ultimately show ?thesis
    using assms False
    by (simp add: getValidNewPipelineName_def largest_exact INITIAL_PIPELINE_NAME_def
        del: of_nat_Suc of_nat_add)
qed

lemma takeWhile_decimal: "takeWhile isDigit (decimal n) = decimal n"
  by (simp add: takeWhile_eq_all_conv decimal_digits)

lemma regExp_match_Main: "regExp_match ''Main'' = Some None"
  by (simp add: regExp_match_def INITIAL_PIPELINE_NAME_def)

lemma regExp_match_Main_decimal:
  "regExp_match (''Main '' @ decimal n) = Some (Some (CHR '' '' # decimal n))"
  by (simp add: regExp_match_def INITIAL_PIPELINE_NAME_def takeWhile_decimal decimal_nonempty)

lemma numericSuffix_Main: "numericSuffix ''Main'' = Some 0"
  by (simp add: numericSuffix_regExp regExp_match_Main)

lemma numericSuffix_Main_decimal: "numericSuffix (''Main '' @ decimal n) = Some n"
  by (simp only: numericSuffix_regExp regExp_match_Main_decimal)
     (simp add: trim_group decimal_nonempty decimal_digits decimalValue_decimal)

lemma suffix_le_Max:
  assumes "p \<in> set ps" and "numericSuffix (name p) = Some k"
  shows "suffixes ps \<noteq> [] \<and> k \<le> Max (set (suffixes ps))"
proof -
  from assms have "k \<in> set (suffixes ps)"
    by (auto simp: set_suffixes)
  then show ?thesis
    by (auto intro: Max_ge)
qed

lemma newName_suffix_greater:
  assumes "safeSuffixes ps"
  shows "\<exists>m. numericSuffix (getValidNewPipelineName ps) = Some m \<and>
             (\<forall>p\<in>set ps. \<forall>k. numericSuffix (name p) = Some k \<longrightarrow> k < m)"
proof (cases "suffixes ps = []")
  case True
  then have "\<forall>p\<in>set ps. \<forall>k. numericSuffix (name p) \<noteq> Some k"
    using set_suffixes [of ps] by auto
  with assms True show ?thesis
    by (simp add: newName_exact numericSuffix_Main)
next
  case False
  have "\<forall>p\<in>set ps. \<forall>k. numericSuffix (name p) = Some k \<longrightarrow> k < Max (set (suffixes ps)) + 1"
    using suffix_le_Max by fastforce
  moreover from assms False
  have "getValidNewPipelineName ps = ''Main '' @ decimal (Max (set (suffixes ps)) + 1)"
    by (simp add: newName_exact)
  then have "numericSuffix (getValidNewPipelineName ps) = Some (Max (set (suffixes ps)) + 1)"
    by (simp only: numericSuffix_Main_decimal)
  ultimately show ?thesis
    by blast
qed










subsection \<open>The example pipelines\<close>

lemma safe_example: "safeSuffixes examplePipelines"
  by (simp add: examplePipelines_def numericSuffix_def suffixes_def safeSuffixes_def
        List.map_filter_simps canonicalize_def char_of_nat_iff isDigit_def decimalValue_def
        digitValue_def)

lemma suffixes_example: "suffixes examplePipelines = [0, 1, 3]"
  by (simp add: examplePipelines_def numericSuffix_def suffixes_def safeSuffixes_def
        List.map_filter_simps canonicalize_def char_of_nat_iff isDigit_def decimalValue_def
        digitValue_def)

lemma toString_2: "number_toString_nat 2 = ''2''"
  by (simp add: number_toString_nat_def decimal.simps digitChar_def char_of_nat_iff)

subsection \<open>The first rejection\<close>

lemma firstRejection_None:
  "firstRejection rs = None \<longleftrightarrow> (\<forall>r\<in>set rs. snd r = Fulfilled)"
  by (induction rs rule: firstRejection.induct) (auto split: option.splits)

lemma firstRejection_Some:
  "firstRejection rs = Some (t, e) \<Longrightarrow> (t, Rejected e) \<in> set rs"
  by (induction rs arbitrary: t e rule: firstRejection.induct)
     (auto split: option.splits if_splits)

subsection \<open>The working directory\<close>

lemma tailMatches_iff:
  "tailMatches t \<longleftrightarrow>
     (\<exists>a c. t = a @ c # ''orchest'' \<and> \<not> isLineTerminator c \<and> CHR ''/'' \<notin> set a)"
proof
  assume "tailMatches t"
  then obtain c a' where t7: "take 7 (rev t) = rev ''orchest''"
    and d7: "drop 7 (rev t) = c # a'" and c: "\<not> isLineTerminator c" and a': "CHR ''/'' \<notin> set a'"
    by (auto simp: tailMatches_def Let_def split: list.splits)
  have "rev t = take 7 (rev t) @ drop 7 (rev t)"
    by simp
  with t7 d7 have "rev t = rev ''orchest'' @ c # a'"
    by simp
  then have "rev (rev t) = rev (rev ''orchest'' @ c # a')"
    by (rule arg_cong)
  then have "t = rev a' @ c # ''orchest''"
    by simp
  with c a' show "\<exists>a c. t = a @ c # ''orchest'' \<and> \<not> isLineTerminator c \<and> CHR ''/'' \<notin> set a"
    by (metis set_rev)
next
  assume "\<exists>a c. t = a @ c # ''orchest'' \<and> \<not> isLineTerminator c \<and> CHR ''/'' \<notin> set a"
  then show "tailMatches t"
    by (auto simp: tailMatches_def)
qed

lemma endsWith_iff: "endsWith s suf \<longleftrightarrow> (\<exists>a. s = a @ suf)"
proof
  assume "endsWith s suf"
  then have "s = take (length s - length suf) s @ suf"
    by (metis append_take_drop_id endsWith_def)
  then show "\<exists>a. s = a @ suf" ..
next
  assume "\<exists>a. s = a @ suf"
  then show "endsWith s suf"
    by (auto simp: endsWith_def)
qed

lemma dot_not_terminator: "\<not> isLineTerminator CHR ''.''"
  by (simp add: isLineTerminator_def)

lemma tailMatches_orchest:
  assumes "endsWith t ''.orchest''"
  shows "tailMatches t \<longleftrightarrow> CHR ''/'' \<notin> set t"
proof -
  from assms obtain b where t: "t = b @ ''.orchest''"
    by (auto simp: endsWith_iff)
  show ?thesis
  proof
    assume "tailMatches t"
    then obtain a c where ac: "t = a @ c # ''orchest''" and a: "CHR ''/'' \<notin> set a"
      by (auto simp: tailMatches_iff)
    from ac t have "a @ c # ''orchest'' = b @ CHR ''.'' # ''orchest''"
      by simp
    then have "a = b"
      by (simp add: append_eq_append_conv)
    with a t show "CHR ''/'' \<notin> set t"
      by simp
  next
    assume "CHR ''/'' \<notin> set t"
    with t have "t = b @ CHR ''.'' # ''orchest'' \<and> \<not> isLineTerminator CHR ''.'' \<and> CHR ''/'' \<notin> set b"
      by (simp add: dot_not_terminator)
    then show "tailMatches t"
      unfolding tailMatches_iff by blast
  qed
qed

lemma endsWith_tail:
  assumes "endsWith (c # cs) ''.orchest''" and "c = CHR ''/'' \<or> CHR ''/'' \<in> set cs"
  shows "endsWith cs ''.orchest''"
proof -
  from assms(1) obtain b where b: "c # cs = b @ ''.orchest''"
    by (auto simp: endsWith_iff)
  show ?thesis
  proof (cases b)
    case Nil
    with b assms(2) show ?thesis by auto
  next
    case (Cons x xs)
    with b have "cs = xs @ ''.orchest''" by simp
    then show ?thesis by (auto simp: endsWith_iff)
  qed
qed

lemma matchesAt_orchest:
  assumes "endsWith (c # cs) ''.orchest''"
  shows "matchesAt (c # cs) \<longleftrightarrow> CHR ''/'' \<notin> set cs"
proof (cases "CHR ''/'' \<in> set cs")
  case True
  then have "endsWith cs ''.orchest''"
    using assms endsWith_tail by blast
  with True assms show ?thesis
    by (simp add: matchesAt_def tailMatches_orchest)
next
  case False
  show ?thesis
  proof (cases "c = CHR ''/''")
    case True
    then have "endsWith cs ''.orchest''"
      using assms endsWith_tail by blast
    with False True show ?thesis
      by (simp add: matchesAt_def tailMatches_orchest)
  next
    case notSlash: False
    with False assms show ?thesis
      by (simp add: matchesAt_def tailMatches_orchest)
  qed
qed

lemma stripFileName_Cons:
  "stripFileName (c # cs) = (if CHR ''/'' \<in> set cs then c # stripFileName cs else ''/'')"
proof (cases "CHR ''/'' \<in> set cs")
  case True
  then have ex: "\<exists>x\<in>set (rev cs). \<not> x \<noteq> CHR ''/''"
    by simp
  then have "dropWhile (\<lambda>c. c \<noteq> CHR ''/'') (rev cs @ [c])
               = dropWhile (\<lambda>c. c \<noteq> CHR ''/'') (rev cs) @ [c]"
    by (simp add: dropWhile_append1)
  moreover have "dropWhile (\<lambda>c. c \<noteq> CHR ''/'') (rev cs) \<noteq> []"
    using ex by (simp add: dropWhile_eq_Nil_conv)
  then obtain x xs where "dropWhile (\<lambda>c. c \<noteq> CHR ''/'') (rev cs) = x # xs"
    by (cases "dropWhile (\<lambda>c. c \<noteq> CHR ''/'') (rev cs)") auto
  ultimately show ?thesis
    using True by (simp add: stripFileName_def)
next
  case False
  then have "dropWhile (\<lambda>c. c \<noteq> CHR ''/'') (rev cs @ [c]) = dropWhile (\<lambda>c. c \<noteq> CHR ''/'') [c]"
    by (intro dropWhile_append2) auto
  then have "drop 1 (dropWhile (\<lambda>c. c \<noteq> CHR ''/'') (rev (c # cs))) = []"
    by simp
  with False show ?thesis
    by (simp only: stripFileName_def) simp
qed

lemma replaceCwd_orchest:
  "endsWith s ''.orchest'' \<Longrightarrow> replaceCwd s = stripFileName s"
proof (induction s)
  case Nil
  then show ?case by (simp add: endsWith_def)
next
  case (Cons c cs)
  show ?case
  proof (cases "CHR ''/'' \<in> set cs")
    case True
    then have "endsWith cs ''.orchest''"
      using Cons.prems endsWith_tail by blast
    with True Cons show ?thesis
      by (simp add: matchesAt_orchest stripFileName_Cons)
  next
    case False
    with Cons.prems show ?thesis
      by (simp add: matchesAt_orchest stripFileName_Cons)
  qed
qed

section \<open>The claims of the specification\<close>

subsection \<open>C1: the default name\<close>

text \<open>
  Claim C1, as the specification words it, does not hold of the code in two places.
  The expression of the code is anchored at the start of the name only, so a name that
  merely begins with \<^verbatim>\<open>Main\<close>, such as \<^verbatim>\<open>Mainframe\<close>, counts as a match with suffix \<open>0\<close>:
  the code answers \<^verbatim>\<open>Main 1\<close> where no name has the form \<^verbatim>\<open>Main\<close> or \<^verbatim>\<open>Main N\<close>. And the
  arithmetic is that of doubles: with the suffix \<open>2 ^ 53 = 9007199254740992\<close> the sum
  \<open>N + 1\<close> is rounded back to \<open>N\<close>, and the code answers with the name that exists.
\<close>

theorem default_name_counterexample:
  "getValidNewPipelineName [\<lparr>name = ''Mainframe'', path = ''mainframe.orchest'', uuid = ''u1''\<rparr>]
     = ''Main 1''
   \<and> spec_newPipelineName [\<lparr>name = ''Mainframe'', path = ''mainframe.orchest'', uuid = ''u1''\<rparr>]
     = ''Main''
   \<and> getValidNewPipelineName
       [\<lparr>name = ''Main 9007199254740992'', path = ''main_9007199254740992.orchest'', uuid = ''u1''\<rparr>]
     = ''Main 9007199254740992''
   \<and> spec_newPipelineName
       [\<lparr>name = ''Main 9007199254740992'', path = ''main_9007199254740992.orchest'', uuid = ''u1''\<rparr>]
     = ''Main 9007199254740993''"
proof -
  have "bitLength 9007199254740993 = 54"
    by (simp add: bitLength.simps)
  then show ?thesis
    by (simp add: getValidNewPipelineName_def largestExistingNumber_def reducer_def
        currentNumber_def regExp_match_def INITIAL_PIPELINE_NAME_def canonicalize_def
        char_of_nat_iff isDigit_def trim_def isWhiteSpace_def parseInt_def decimalValue_def
        digitValue_def doubleOfNat_def number_toString_nat_def decimal.simps digitChar_def Let_def)
       (simp add: spec_newPipelineName_def nameIsMainN_def list_all_iff numericSuffix_def
        List.map_filter_simps canonicalize_def char_of_nat_iff isDigit_def decimalValue_def
        digitValue_def decimal.simps digitChar_def)
qed

text \<open>
  Claim C1, amended. Let the numeric suffix of a name be read where the code reads it:
  a name that begins with \<^verbatim>\<open>Main\<close> (in any case of the letters) has the suffix \<open>N\<close> when
  a space and the digits of \<open>N\<close> come next, and the suffix \<open>0\<close> otherwise; any other name
  has none. When every suffix is below \<open>2 ^ 53\<close>, \<open>getValidNewPipelineName\<close> returns
  \<^verbatim>\<open>Main\<close> if no name has a suffix, and \<^verbatim>\<open>Main\<close>, a space and \<open>N + 1\<close> in decimal
  otherwise, \<open>N\<close> being the largest suffix. The names \<^verbatim>\<open>Main\<close>, \<^verbatim>\<open>Main 1\<close>, \<^verbatim>\<open>Main 3\<close>
  give \<^verbatim>\<open>Main 4\<close> with the path \<^verbatim>\<open>main_4.orchest\<close>; the empty list gives \<^verbatim>\<open>Main\<close> with the
  path \<^verbatim>\<open>main.orchest\<close>.
\<close>

theorem default_name:
  "(safeSuffixes ps \<longrightarrow>
      getValidNewPipelineName ps =
        (if \<forall>p\<in>set ps. numericSuffix (name p) = None then ''Main''
         else ''Main '' @ decimal (Max {k. \<exists>p\<in>set ps. numericSuffix (name p) = Some k} + 1)))
   \<and> (map name qs = [''Main'', ''Main 1'', ''Main 3''] \<longrightarrow>
        getValidNewPipelineName qs = ''Main 4''
        \<and> getPathFromName (getValidNewPipelineName qs) = ''main_4.orchest'')
   \<and> getValidNewPipelineName [] = ''Main''
   \<and> getPathFromName (getValidNewPipelineName []) = ''main.orchest''"
proof (intro conjI impI)
  assume safe: "safeSuffixes ps"
  have "suffixes ps = [] \<longleftrightarrow> (\<forall>p\<in>set ps. numericSuffix (name p) = None)"
    using set_suffixes [of ps] by (auto simp flip: set_empty)
  with safe show "getValidNewPipelineName ps =
        (if \<forall>p\<in>set ps. numericSuffix (name p) = None then ''Main''
         else ''Main '' @ decimal (Max {k. \<exists>p\<in>set ps. numericSuffix (name p) = Some k} + 1))"
    by (simp add: newName_exact set_suffixes)
next
  assume "map name qs = [''Main'', ''Main 1'', ''Main 3'']"
  then obtain a b c where qs: "qs = [a, b, c]" and names: "name a = ''Main''"
    "name b = ''Main 1''" "name c = ''Main 3''"
    by auto
  then show new: "getValidNewPipelineName qs = ''Main 4''"
    by (simp add: getValidNewPipelineName_def largestExistingNumber_def reducer_def
        currentNumber_def regExp_match_def INITIAL_PIPELINE_NAME_def canonicalize_def
        char_of_nat_iff isDigit_def trim_def isWhiteSpace_def parseInt_def decimalValue_def
        digitValue_def doubleOfNat_def number_toString_nat_def decimal.simps digitChar_def Let_def)
  show "getPathFromName (getValidNewPipelineName qs) = ''main_4.orchest''"
    by (simp only: new) (simp add: getPathFromName_def toLowerCase_def toLowerCaseChar_def
        isWordChar_def char_of_nat_iff)
next
  show empty: "getValidNewPipelineName [] = ''Main''"
    by (simp add: getValidNewPipelineName_def largestExistingNumber_def reducer_def
        currentNumber_def regExp_match_def INITIAL_PIPELINE_NAME_def canonicalize_def
        char_of_nat_iff isDigit_def trim_def isWhiteSpace_def parseInt_def decimalValue_def
        digitValue_def doubleOfNat_def number_toString_nat_def decimal.simps digitChar_def Let_def)
  show "getPathFromName (getValidNewPipelineName []) = ''main.orchest''"
    by (simp only: empty) (simp add: getPathFromName_def toLowerCase_def toLowerCaseChar_def
        isWordChar_def char_of_nat_iff)
qed

text \<open>
  The amended claim C1 at the three names of the specification's example: the suffixes
  are \<open>0\<close>, \<open>1\<close> and \<open>3\<close>, and the new name is \<^verbatim>\<open>Main 4\<close>.
\<close>

theorem default_name_witness:
  "safeSuffixes examplePipelines
   \<and> map name examplePipelines = [''Main'', ''Main 1'', ''Main 3'']
   \<and> \<not> (\<forall>p\<in>set examplePipelines. numericSuffix (name p) = None)
   \<and> Max {k. \<exists>p\<in>set examplePipelines. numericSuffix (name p) = Some k} = 3
   \<and> getValidNewPipelineName examplePipelines = ''Main 4''
   \<and> getValidNewPipelineName examplePipelines =
       ''Main '' @ decimal (Max {k. \<exists>p\<in>set examplePipelines. numericSuffix (name p) = Some k} + 1)"
proof -
  have names: "map name examplePipelines = [''Main'', ''Main 1'', ''Main 3'']"
    by (simp add: examplePipelines_def)
  have some: "\<not> (\<forall>p\<in>set examplePipelines. numericSuffix (name p) = None)"
    by (simp add: examplePipelines_def numericSuffix_def suffixes_def safeSuffixes_def
        List.map_filter_simps canonicalize_def char_of_nat_iff isDigit_def decimalValue_def
        digitValue_def)
  have "{k. \<exists>p\<in>set examplePipelines. numericSuffix (name p) = Some k} = {0, 1, 3}"
    using set_suffixes [of examplePipelines] by (simp add: suffixes_example)
  then have mx: "Max {k. \<exists>p\<in>set examplePipelines. numericSuffix (name p) = Some k} = 3"
    by simp
  from default_name [of examplePipelines examplePipelines] safe_example names some mx
  show ?thesis
    by (simp add: decimal.simps digitChar_def char_of_nat_iff)
qed

subsection \<open>C2: the default path and the existing paths\<close>




subsection \<open>C3: the suffix of the default name\<close>

text \<open>
  Claim C3, as the specification words it, does not hold of the code: beside the one
  name \<^verbatim>\<open>Main 9007199254740992\<close> the default name has the same suffix \<open>2 ^ 53\<close>, not a
  greater one.
\<close>

theorem suffix_greater_counterexample:
  "numericSuffix ''Main 9007199254740992'' = Some 9007199254740992
   \<and> numericSuffix (getValidNewPipelineName
        [\<lparr>name = ''Main 9007199254740992'', path = ''main_9007199254740992.orchest'', uuid = ''u1''\<rparr>])
       = Some 9007199254740992"
proof -
  have b: "bitLength 9007199254740993 = 54"
    by (simp add: bitLength.simps)
  have new: "getValidNewPipelineName
        [\<lparr>name = ''Main 9007199254740992'', path = ''main_9007199254740992.orchest'', uuid = ''u1''\<rparr>]
       = ''Main 9007199254740992''"
    using b by (simp add: getValidNewPipelineName_def largestExistingNumber_def reducer_def
        currentNumber_def regExp_match_def INITIAL_PIPELINE_NAME_def canonicalize_def
        char_of_nat_iff isDigit_def trim_def isWhiteSpace_def parseInt_def decimalValue_def
        digitValue_def doubleOfNat_def number_toString_nat_def decimal.simps digitChar_def Let_def)
  show ?thesis
    by (simp only: new) (simp add: numericSuffix_def suffixes_def safeSuffixes_def
        List.map_filter_simps canonicalize_def char_of_nat_iff isDigit_def decimalValue_def
        digitValue_def)
qed

text \<open>
  Claim C3, amended. When every numeric suffix of an existing name is below \<open>2 ^ 53\<close>,
  the default name has a numeric suffix, and it is strictly greater than the suffix of
  every existing name that has one.
\<close>

theorem suffix_greater:
  assumes "safeSuffixes ps"
  shows "\<exists>m. numericSuffix (getValidNewPipelineName ps) = Some m \<and>
             (\<forall>p\<in>set ps. \<forall>k. numericSuffix (name p) = Some k \<longrightarrow> k < m)"
  using assms by (rule newName_suffix_greater)

text \<open>The amended claim C3 at the three example pipelines.\<close>

theorem suffix_greater_witness:
  "safeSuffixes examplePipelines
   \<and> (\<exists>m. numericSuffix (getValidNewPipelineName examplePipelines) = Some m \<and>
           (\<forall>p\<in>set examplePipelines. \<forall>k. numericSuffix (name p) = Some k \<longrightarrow> k < m))"
  using suffix_greater [OF safe_example] safe_example by blast

subsection \<open>C4: the checks before a pipeline is created\<close>

text \<open>
  Claim C4. When the name is empty, the path is empty or \<^verbatim>\<open>.orchest\<close>, or the path does not
  end in \<^verbatim>\<open>.orchest\<close>, \<open>onSubmitCreatePipeline\<close> shows one alert, leaves the view as it is
  and sends no request. When the path is the path of an existing pipeline, the form
  shows \<^verbatim>\<open>File already exists\<close> under the path field, its submit button is disabled, and a
  submission of the form does nothing. So in each of the four cases a submission of the
  form sends no request and leaves the view as it is, and a message is shown: the inline
  one for a path that is taken, and otherwise (the button being enabled) one of the three
  alerts.
\<close>

theorem create_validation:
  "(createPipelineName v = [] \<or> createPipelinePath v = [] \<or> createPipelinePath v = ''.orchest''
      \<or> \<not> endsWith (createPipelinePath v) ''.orchest''
    \<longrightarrow> fst (onSubmitCreatePipeline v) = v
        \<and> snd (onSubmitCreatePipeline v)
            \<in> {[SetAlert ''Error'' (Some ''Please enter a name.'')],
               [SetAlert ''Error'' (Some ''Please enter the path for the pipeline.'')],
               [SetAlert ''Error'' (Some ''The path should end in the .orchest extension.'')]}
        \<and> \<not> list_ex isRequest (snd (onSubmitCreatePipeline v)))
   \<and> (isPathTaken v
    \<longrightarrow> createPathHelperText v = ''File already exists'' \<and> createButtonDisabled v
        \<and> submitCreateForm v = (v, []))
   \<and> (createPipelineName v = [] \<or> createPipelinePath v = [] \<or> createPipelinePath v = ''.orchest''
      \<or> isPathTaken v \<or> \<not> endsWith (createPipelinePath v) ''.orchest''
    \<longrightarrow> fst (submitCreateForm v) = v
        \<and> \<not> list_ex isRequest (snd (submitCreateForm v))
        \<and> (isPathTaken v \<longrightarrow> createPathHelperText v = ''File already exists'')
        \<and> (\<not> createButtonDisabled v \<longrightarrow>
              snd (submitCreateForm v)
                \<in> {[SetAlert ''Error'' (Some ''Please enter a name.'')],
                   [SetAlert ''Error'' (Some ''Please enter the path for the pipeline.'')],
                   [SetAlert ''Error'' (Some ''The path should end in the .orchest extension.'')]}))"
proof -
  have handler: "createPipelineName v = [] \<or> createPipelinePath v = []
      \<or> createPipelinePath v = ''.orchest'' \<or> \<not> endsWith (createPipelinePath v) ''.orchest''
    \<longrightarrow> fst (onSubmitCreatePipeline v) = v
        \<and> snd (onSubmitCreatePipeline v)
            \<in> {[SetAlert ''Error'' (Some ''Please enter a name.'')],
               [SetAlert ''Error'' (Some ''Please enter the path for the pipeline.'')],
               [SetAlert ''Error'' (Some ''The path should end in the .orchest extension.'')]}
        \<and> \<not> list_ex isRequest (snd (onSubmitCreatePipeline v))"
    by (auto simp: onSubmitCreatePipeline_def Let_def isRequest_def)
  have taken: "isPathTaken v
    \<longrightarrow> createPathHelperText v = ''File already exists'' \<and> createButtonDisabled v
        \<and> submitCreateForm v = (v, [])"
    by (simp add: createPathHelperText_def createButtonDisabled_def submitCreateForm_def)
  have disabled: "createButtonDisabled v \<longrightarrow> submitCreateForm v = (v, [])"
    by (simp add: submitCreateForm_def)
  have enabled: "\<not> createButtonDisabled v \<longrightarrow> submitCreateForm v = onSubmitCreatePipeline v"
    by (simp add: submitCreateForm_def)
  have form: "createPipelineName v = [] \<or> createPipelinePath v = []
      \<or> createPipelinePath v = ''.orchest'' \<or> isPathTaken v
      \<or> \<not> endsWith (createPipelinePath v) ''.orchest''
    \<longrightarrow> fst (submitCreateForm v) = v
        \<and> \<not> list_ex isRequest (snd (submitCreateForm v))
        \<and> (isPathTaken v \<longrightarrow> createPathHelperText v = ''File already exists'')
        \<and> (\<not> createButtonDisabled v \<longrightarrow>
              snd (submitCreateForm v)
                \<in> {[SetAlert ''Error'' (Some ''Please enter a name.'')],
                   [SetAlert ''Error'' (Some ''Please enter the path for the pipeline.'')],
                   [SetAlert ''Error'' (Some ''The path should end in the .orchest extension.'')]})"
  proof (cases "createButtonDisabled v")
    case True
    with disabled taken show ?thesis
      by simp
  next
    case False
    then have "\<not> isPathTaken v"
      by (simp add: createButtonDisabled_def)
    with False enabled handler show ?thesis
      by simp
  qed
  from handler taken form show ?thesis
    by blast
qed

text \<open>
  Claim C4 at a view with an empty name and a free path, whose button is enabled, and at
  the view whose path is taken.
\<close>

theorem create_validation_witness:
  "createPipelineName (validView\<lparr>createPipelineName := []\<rparr>) = []
   \<and> \<not> createButtonDisabled (validView\<lparr>createPipelineName := []\<rparr>)
   \<and> submitCreateForm (validView\<lparr>createPipelineName := []\<rparr>)
       = (validView\<lparr>createPipelineName := []\<rparr>,
          [SetAlert ''Error'' (Some ''Please enter a name.'')])
   \<and> isPathTaken exampleView \<and> createButtonDisabled exampleView
   \<and> createPathHelperText exampleView = ''File already exists''
   \<and> submitCreateForm exampleView = (exampleView, [])"
proof -
  let ?v = "validView\<lparr>createPipelineName := []\<rparr>"
  have empty: "createPipelineName ?v = []"
    by simp
  have enabled: "\<not> createButtonDisabled ?v"
    by (simp add: validView_def exampleView_def createButtonDisabled_def isPathTaken_def
        pipelineRows_def isOperating_def)
  have taken: "isPathTaken exampleView"
    by (simp add: exampleView_def isPathTaken_def pipelineRows_def)
  have alert: "snd (onSubmitCreatePipeline ?v) = [SetAlert ''Error'' (Some ''Please enter a name.'')]"
    by (simp add: onSubmitCreatePipeline_def)
  from enabled have same: "submitCreateForm ?v = onSubmitCreatePipeline ?v"
    by (simp add: submitCreateForm_def)
  from create_validation [of ?v] empty have "fst (submitCreateForm ?v) = ?v"
    by blast
  with same alert have "submitCreateForm ?v = (?v, [SetAlert ''Error'' (Some ''Please enter a name.'')])"
    by (simp add: prod_eq_iff)
  moreover from create_validation [of exampleView] taken
  have "createPathHelperText exampleView = ''File already exists''
      \<and> createButtonDisabled exampleView \<and> submitCreateForm exampleView = (exampleView, [])"
    by blast
  ultimately show ?thesis
    using empty enabled taken by blast
qed

subsection \<open>C5: the extension of the new path\<close>

text \<open>
  Claim C5. When the path of a rename submission does not end in \<^verbatim>\<open>.orchest\<close>,
  \<open>onSubmitEditPipelinePathModal\<close> shows the alert
  \<^verbatim>\<open>The path should end in the .orchest extension.\<close> and does nothing else: no request is
  sent and the view is as before.
\<close>

theorem edit_extension_check:
  assumes "pipelineInEdit v = Some e" and "\<not> endsWith (edit_path e) ''.orchest''"
  shows "onSubmitEditPipelinePathModal v =
           (v, [SetAlert ''Error'' (Some ''The path should end in the .orchest extension.'')])"
  using assms by (simp add: onSubmitEditPipelinePathModal_def)

text \<open>Claim C5 at the path \<^verbatim>\<open>renamed.txt\<close>.\<close>

theorem edit_extension_check_witness:
  "pipelineInEdit (exampleView\<lparr>pipelineInEdit := Some \<lparr>edit_uuid = ''u1'', edit_path = ''renamed.txt''\<rparr>\<rparr>)
     = Some \<lparr>edit_uuid = ''u1'', edit_path = ''renamed.txt''\<rparr>
   \<and> \<not> endsWith ''renamed.txt'' ''.orchest''
   \<and> snd (onSubmitEditPipelinePathModal
        (exampleView\<lparr>pipelineInEdit := Some \<lparr>edit_uuid = ''u1'', edit_path = ''renamed.txt''\<rparr>\<rparr>))
       = [SetAlert ''Error'' (Some ''The path should end in the .orchest extension.'')]"
proof -
  let ?e = "\<lparr>edit_uuid = ''u1'', edit_path = ''renamed.txt''\<rparr>"
  let ?v = "exampleView\<lparr>pipelineInEdit := Some ?e\<rparr>"
  have h1: "pipelineInEdit ?v = Some ?e" by simp
  have h2: "\<not> endsWith (edit_path ?e) ''.orchest''" by (simp add: endsWith_def)
  from edit_extension_check [OF h1 h2] h1 h2 show ?thesis by simp
qed

subsection \<open>C6: deleting several pipelines\<close>

text \<open>
  Claim C6, as the specification words it, does not hold of the code in its last part.
  Two uuids give two \<^verbatim>\<open>DELETE\<close> requests; when the second is rejected the alert is shown
  and the confirmation is resolved with \<^verbatim>\<open>false\<close>, but the list of pipelines is not
  fetched again, although the first request has succeeded.
\<close>

theorem delete_counterexample:
  "onConfirmDelete exampleView [''a'', ''b''] =
     [Fetch \<lparr>requestMethod = DELETE, url = ''/async/pipelines/delete/proj/a'', body = None\<rparr>,
      Fetch \<lparr>requestMethod = DELETE, url = ''/async/pipelines/delete/proj/b'', body = None\<rparr>]
   \<and> exampleNetwork ''a'' = (2, Fulfilled)
   \<and> exampleNetwork ''b'' = (1, Rejected exampleRejection)
   \<and> onDeleteSettled exampleNetwork [''a'', ''b''] =
       [SetAlert ''Error'' (Some ''Failed to delete pipeline: [object Object]''), Resolve False]
   \<and> RequestFetchPipelines \<notin> set (onDeleteSettled exampleNetwork [''a'', ''b''])"
  by (simp add: exampleView_def exampleNetwork_def exampleRejection_def onConfirmDelete_def
      onDeleteSettled_def requestDeletePipelines_def)

text \<open>
  Claim C6, amended. When the user confirms, one \<^verbatim>\<open>DELETE\<close> request is sent for each
  selected uuid, in the order of the selection. If one of the requests is rejected, an
  alert \<^verbatim>\<open>Failed to delete pipeline: ...\<close> with the reason of a rejected request is shown,
  the confirmation is resolved with \<^verbatim>\<open>false\<close> and the list is not fetched again. If all
  are fulfilled, the list is fetched again and the confirmation is resolved with
  \<^verbatim>\<open>true\<close>.
\<close>

theorem delete_batch:
  "length (onConfirmDelete v uuids) = length uuids
   \<and> (\<forall>i<length uuids. onConfirmDelete v uuids ! i =
         Fetch \<lparr>requestMethod = DELETE,
                url = ''/async/pipelines/delete/'' @ projectUuid v @ ''/'' @ uuids ! i,
                body = None\<rparr>)
   \<and> ((\<exists>u\<in>set uuids. snd (network u) \<noteq> Fulfilled) \<longrightarrow>
        (\<exists>u\<in>set uuids. \<exists>t r. network u = (t, Rejected r) \<and>
           onDeleteSettled network uuids =
             [SetAlert ''Error'' (Some (''Failed to delete pipeline: '' @ reasonText r)),
              Resolve False]))
   \<and> ((\<forall>u\<in>set uuids. snd (network u) = Fulfilled) \<longrightarrow>
        onDeleteSettled network uuids = [RequestFetchPipelines, Resolve True])"
proof (intro conjI impI)
  show "length (onConfirmDelete v uuids) = length uuids"
    by (simp add: onConfirmDelete_def)
  show "\<forall>i<length uuids. onConfirmDelete v uuids ! i =
         Fetch \<lparr>requestMethod = DELETE,
                url = ''/async/pipelines/delete/'' @ projectUuid v @ ''/'' @ uuids ! i,
                body = None\<rparr>"
    by (simp add: onConfirmDelete_def requestDeletePipelines_def)
next
  assume "\<exists>u\<in>set uuids. snd (network u) \<noteq> Fulfilled"
  then have "firstRejection (map network uuids) \<noteq> None"
    by (simp add: firstRejection_None)
  then obtain t r where fr: "firstRejection (map network uuids) = Some (t, r)"
    by auto
  then have "(t, Rejected r) \<in> set (map network uuids)"
    by (rule firstRejection_Some)
  then obtain u where "u \<in> set uuids" and "network u = (t, Rejected r)"
    by auto
  with fr show "\<exists>u\<in>set uuids. \<exists>t r. network u = (t, Rejected r) \<and>
           onDeleteSettled network uuids =
             [SetAlert ''Error'' (Some (''Failed to delete pipeline: '' @ reasonText r)),
              Resolve False]"
    by (auto simp: onDeleteSettled_def)
next
  assume "\<forall>u\<in>set uuids. snd (network u) = Fulfilled"
  then have "firstRejection (map network uuids) = None"
    by (simp add: firstRejection_None)
  then show "onDeleteSettled network uuids = [RequestFetchPipelines, Resolve True]"
    by (simp add: onDeleteSettled_def)
qed

text \<open>
  The amended claim C6 at the two uuids \<^verbatim>\<open>a\<close> and \<^verbatim>\<open>b\<close>, of which \<^verbatim>\<open>b\<close> is rejected, and at
  \<^verbatim>\<open>a\<close> alone.
\<close>

theorem delete_batch_witness:
  "length (onConfirmDelete exampleView [''a'', ''b'']) = 2
   \<and> snd (exampleNetwork ''b'') \<noteq> Fulfilled
   \<and> onDeleteSettled exampleNetwork [''a'', ''b''] =
       [SetAlert ''Error'' (Some ''Failed to delete pipeline: [object Object]''), Resolve False]
   \<and> snd (exampleNetwork ''a'') = Fulfilled
   \<and> onDeleteSettled exampleNetwork [''a''] = [RequestFetchPipelines, Resolve True]"
  using delete_batch [of exampleView "[''a'', ''b'']" exampleNetwork]
    delete_batch [of exampleView "[''a'']" exampleNetwork]
  by (simp add: exampleNetwork_def exampleRejection_def)

subsection \<open>C7: the dialogs after a failed request\<close>




subsection \<open>C8: the message for code 2\<close>

text \<open>
  Claim C8. A rename submission that passes the check sends the \<^verbatim>\<open>PUT\<close> request with its
  path. When that request is rejected with a body that parses to a value whose \<^verbatim>\<open>code\<close> is
  \<open>2\<close>, one alert is shown, with the message of the code \<open>2\<close>:
  \<^verbatim>\<open>Cannot change the pipeline path, a file path with the name\<close>, the path of the submission
  with a double quote behind it, and \<^verbatim>\<open>already exists.\<close> That message is the one under the
  key \<open>2\<close> of the table of messages, whose own keys are \<open>0\<close> to \<open>6\<close>.
\<close>

theorem rename_code_2:
  assumes "pipelineInEdit v = Some e" and "endsWith (edit_path e) ''.orchest''"
    and "parsedBody r = Some resp" and "json_get resp ''code'' = Some (Some (JNumber 2))"
  shows "snd (onSubmitEditPipelinePathModal v) =
           [Fetch \<lparr>requestMethod = PUT,
                   url = ''/async/pipelines/'' @ projectUuid v @ ''/'' @ edit_uuid e,
                   body = Some (JObject [(''path'', JString (edit_path e))])\<rparr>]
         \<and> snd (onEditSettled e (Rejected r) w) =
           [SetAlert ''Error''
              (Some (''Cannot change the pipeline path, a file path with the name ''
                     @ edit_path e @ [CHR 0x22] @ '' already exists.''))]
         \<and> map_of (getErrorMessages (edit_path e)) ''2'' =
             Some (''Cannot change the pipeline path, a file path with the name ''
                   @ edit_path e @ [CHR 0x22] @ '' already exists.'')
         \<and> map fst (getErrorMessages (edit_path e))
             = [''0'', ''1'', ''2'', ''3'', ''4'', ''5'', ''6'']"
proof -
  have key: "toDisplayString (Some (JNumber 2)) = ''2''"
    by (simp add: toDisplayString_def toString_2)
  have message: "map_of (getErrorMessages (edit_path e)) ''2'' =
      Some (''Cannot change the pipeline path, a file path with the name ''
            @ edit_path e @ [CHR 0x22] @ '' already exists.'')"
    by (simp add: getErrorMessages_def)
  have keys: "map fst (getErrorMessages (edit_path e)) = [''0'', ''1'', ''2'', ''3'', ''4'', ''5'', ''6'']"
    by (simp add: getErrorMessages_def)
  from assms have request: "snd (onSubmitEditPipelinePathModal v) =
           [Fetch \<lparr>requestMethod = PUT,
                   url = ''/async/pipelines/'' @ projectUuid v @ ''/'' @ edit_uuid e,
                   body = Some (JObject [(''path'', JString (edit_path e))])\<rparr>]"
    by (simp add: onSubmitEditPipelinePathModal_def)
  from assms have "snd (onEditSettled e (Rejected r) w) =
      [alertOf (readProperty (getErrorMessages (edit_path e)) ''2'')]"
    by (simp add: onEditSettled_def key)
  with message have "snd (onEditSettled e (Rejected r) w) =
           [SetAlert ''Error''
              (Some (''Cannot change the pipeline path, a file path with the name ''
                     @ edit_path e @ [CHR 0x22] @ '' already exists.''))]"
    by (simp add: readProperty_def alertOf_def)
  with request message keys show ?thesis
    by simp
qed

text \<open>Claim C8 at the path \<^verbatim>\<open>renamed.orchest\<close> and the body \<^verbatim>\<open>{"code": 2}\<close>.\<close>

theorem rename_code_2_witness:
  "pipelineInEdit validView = Some \<lparr>edit_uuid = ''u1'', edit_path = ''renamed.orchest''\<rparr>
   \<and> endsWith ''renamed.orchest'' ''.orchest''
   \<and> parsedBody exampleRejection = Some (JObject [(''code'', JNumber 2)])
   \<and> json_get (JObject [(''code'', JNumber 2)]) ''code'' = Some (Some (JNumber 2))
   \<and> snd (onEditSettled \<lparr>edit_uuid = ''u1'', edit_path = ''renamed.orchest''\<rparr>
             (Rejected exampleRejection) validView) =
       [SetAlert ''Error''
          (Some (''Cannot change the pipeline path, a file path with the name renamed.orchest''
                 @ [CHR 0x22] @ '' already exists.''))]"
proof -
  let ?e = "\<lparr>edit_uuid = ''u1'', edit_path = ''renamed.orchest''\<rparr>"
  have h1: "pipelineInEdit validView = Some ?e"
    by (simp add: validView_def exampleView_def)
  have h2: "endsWith (edit_path ?e) ''.orchest''"
    by (simp add: endsWith_def)
  have h3: "parsedBody exampleRejection = Some (JObject [(''code'', JNumber 2)])"
    by (simp add: exampleRejection_def)
  have h4: "json_get (JObject [(''code'', JNumber 2)]) ''code'' = Some (Some (JNumber 2))"
    by simp
  from rename_code_2 [OF h1 h2 h3 h4, of validView] h1 h2 h3 h4 show ?thesis
    by simp
qed

subsection \<open>C9: the working directory\<close>

text \<open>
  Claim C9. For a fetched pipeline whose path ends in \<^verbatim>\<open>.orchest\<close>, the working directory
  given to the file picker is the path without its file name: what is before the last
  slash, and a slash. So \<^verbatim>\<open>foo/bar.orchest\<close> gives \<^verbatim>\<open>foo/\<close> and \<^verbatim>\<open>main.orchest\<close> gives \<^verbatim>\<open>/\<close>.
\<close>

theorem pipeline_cwd:
  "(endsWith (path p) ''.orchest'' \<longrightarrow> pipelineCwd (Some p) = Some (stripFileName (path p)))
   \<and> (path p = ''foo/bar.orchest'' \<longrightarrow> pipelineCwd (Some p) = Some ''foo/'')
   \<and> (path p = ''main.orchest'' \<longrightarrow> pipelineCwd (Some p) = Some ''/'')"
  by (simp add: pipelineCwd_def replaceCwd_orchest)
     (simp add: matchesAt_def tailMatches_def isLineTerminator_def)

text \<open>Claim C9 at the paths \<^verbatim>\<open>foo/bar.orchest\<close> and \<^verbatim>\<open>main.orchest\<close>.\<close>

theorem pipeline_cwd_witness:
  "endsWith ''foo/bar.orchest'' ''.orchest''
   \<and> pipelineCwd (Some \<lparr>name = ''Bar'', path = ''foo/bar.orchest'', uuid = ''u1''\<rparr>) = Some ''foo/''
   \<and> stripFileName ''foo/bar.orchest'' = ''foo/''
   \<and> pipelineCwd (Some \<lparr>name = ''Main'', path = ''main.orchest'', uuid = ''u2''\<rparr>) = Some ''/''
   \<and> stripFileName ''main.orchest'' = ''/''"
  using pipeline_cwd [of "\<lparr>name = ''Bar'', path = ''foo/bar.orchest'', uuid = ''u1''\<rparr>"]
    pipeline_cwd [of "\<lparr>name = ''Main'', path = ''main.orchest'', uuid = ''u2''\<rparr>"]
  by (simp add: endsWith_def stripFileName_def)

subsection \<open>C10: submitting the parameter file dialog\<close>

text \<open>
  Claim C10. Submitting the form of the dialog calls \<^verbatim>\<open>onSubmit\<close> with the selected path
  and does nothing else, whatever the path is and whatever the check of the file has
  reported. A dialog that is submitted at once gives the empty string; a path whose
  check has failed is given as it is.
\<close>

theorem submit_unconditional:
  "dialogStep d SubmitForm = (d, [OnSubmit (selectedPath d)])
   \<and> snd (dialogStep (d\<lparr>doesFileExist := False\<rparr>) SubmitForm) = [OnSubmit (selectedPath d)]
   \<and> snd (runDialog initialDialog [SubmitForm]) = [OnSubmit []]
   \<and> snd (runDialog initialDialog [ChangeFilePath s, FileValidity False False, SubmitForm])
       = [OnSubmit s]"
  by (simp add: initialDialog_def)

text \<open>Claim C10 at a dialog in which the path \<^verbatim>\<open>notes.txt\<close> is selected.\<close>

theorem submit_unconditional_witness:
  "snd (runDialog initialDialog [ChangeFilePath ''notes.txt'', FileValidity False False, SubmitForm])
     = [OnSubmit ''notes.txt'']
   \<and> snd (runDialog initialDialog [SubmitForm]) = [OnSubmit []]"
  using submit_unconditional [of initialDialog "''notes.txt''"]
  by simp

end
